theory Spec2Isabelle
  imports Complex_Main
begin

section \<open>The UI-automation watcher \<^verbatim>\<open>uia_clicker.py\<close>\<close>

text \<open>
  The program talks to an accessibility backend (the \<^verbatim>\<open>uiautomation\<close> library), to the clock
  (\<^verbatim>\<open>time.sleep\<close>) and to standard output.  The embedding makes these effects explicit: the
  state threaded through the program is the \<^emph>\<open>history\<close>, the list of every call made so far
  in program order, and the backend is a record of response functions that answer a call from
  the history before it.  A response may therefore differ between two calls on the same
  handle (a control that exists at discovery and is gone a moment later), and it is either a
  value or a raised exception.
\<close>

subsection \<open>Data model\<close>

datatype window = Window nat
datatype control = Control nat

text \<open>
  Every exception the backend raises is an instance of Python's \<^verbatim>\<open>Exception\<close>; the string is
  what \<^verbatim>\<open>str(e)\<close> gives.  \<^verbatim>\<open>KeyboardInterrupt\<close>, the asynchronous cancellation of the process,
  is not part of the model, so a bare \<^verbatim>\<open>except:\<close> and \<^verbatim>\<open>except Exception\<close> coincide.
\<close>

datatype exn = Exception string

fun str :: "exn \<Rightarrow> string" where
  "str (Exception m) = m"

text \<open>Delays are in seconds; the source's literal \<^verbatim>\<open>0.5\<close> is \<open>1/2\<close>.\<close>

datatype event =
    GetChildren
  | ClassName window
  | ButtonControl window nat string
  | Exists control
  | Name control
  | IsEnabled control
  | Invoke control
  | GetLegacyIAccessiblePattern control
  | DoDefaultAction control
  | Click control
  | Sleep rat
  | Print string

type_synonym history = "event list"

text \<open>
  \<open>r_GetLegacyIAccessiblePattern\<close> answers whether the returned pattern object is truthy;
  \<open>printable\<close> says whether standard output can encode a text that comes from the backend:
  a control's name, the message of an exception.
\<close>

record backend =
  r_GetChildren :: "history \<Rightarrow> exn + window list"
  r_ClassName :: "history \<Rightarrow> window \<Rightarrow> exn + string"
  r_ButtonControl :: "history \<Rightarrow> window \<Rightarrow> nat \<Rightarrow> string \<Rightarrow> exn + control"
  r_Exists :: "history \<Rightarrow> control \<Rightarrow> exn + bool"
  r_Name :: "history \<Rightarrow> control \<Rightarrow> exn + string"
  r_IsEnabled :: "history \<Rightarrow> control \<Rightarrow> exn + bool"
  r_Invoke :: "history \<Rightarrow> control \<Rightarrow> exn + unit"
  r_GetLegacyIAccessiblePattern :: "history \<Rightarrow> control \<Rightarrow> exn + bool"
  r_DoDefaultAction :: "history \<Rightarrow> control \<Rightarrow> exn + unit"
  r_Click :: "history \<Rightarrow> control \<Rightarrow> exn + unit"
  printable :: "string \<Rightarrow> bool"

subsection \<open>Programs: state passing with exceptions\<close>

type_synonym 'a prog = "history \<Rightarrow> (exn + 'a) \<times> history"

definition ret :: "'a \<Rightarrow> 'a prog" where
  "ret x h = (Inr x, h)"

definition bnd :: "'a prog \<Rightarrow> ('a \<Rightarrow> 'b prog) \<Rightarrow> 'b prog" where
  "bnd m f h = (case m h of (Inl e, h') \<Rightarrow> (Inl e, h') | (Inr x, h') \<Rightarrow> f x h')"

text \<open>\<^verbatim>\<open>try: m except Exception as e: hdl\<close>\<close>

definition try_except :: "'a prog \<Rightarrow> (exn \<Rightarrow> 'a prog) \<Rightarrow> 'a prog" where
  "try_except m hdl h = (case m h of (Inl e, h') \<Rightarrow> hdl e h' | (Inr x, h') \<Rightarrow> (Inr x, h'))"

text \<open>A backend call: answered from the history before it, then recorded.\<close>

definition call :: "(history \<Rightarrow> exn + 'a) \<Rightarrow> event \<Rightarrow> 'a prog" where
  "call resp ev h = (resp h, h @ [ev])"

definition sleep :: "rat \<Rightarrow> unit prog" where
  "sleep secs h = (Inr (), h @ [Sleep secs])"

text \<open>
  \<^verbatim>\<open>flush_print\<close> writes one line and flushes.  The timestamp prefix is left out (the clock is
  not modelled).  The failure of a write that is modelled is the one the source provides
  for: standard output cannot encode the text.  The program's own text and the labels
  \<^verbatim>\<open>Accept\<close> and \<^verbatim>\<open>Confirm\<close> are ASCII, so a line made of them alone is written
  (\<open>flush_print\<close>).  A line that ends in a text from the backend (\<open>flush_print_text\<close>) raises
  \<^verbatim>\<open>UnicodeEncodeError\<close> when that text is not \<open>printable\<close>, and then nothing is written.  A
  standard output that fails as a device (a closed pipe) is not modelled.
\<close>

definition flush_print :: "string \<Rightarrow> unit prog" where
  "flush_print msg h = (Inr (), h @ [Print msg])"

definition flush_print_text :: "backend \<Rightarrow> string \<Rightarrow> string \<Rightarrow> unit prog" where
  "flush_print_text be line text h =
     (if printable be text then flush_print (line @ text) h
      else (Inl (Exception ''UnicodeEncodeError''), h))"

subsection \<open>\<^verbatim>\<open>click_button\<close>\<close>

text \<open>Lines 20 to 23: the name is printed, or a fixed line when printing it raises.\<close>

definition print_found :: "backend \<Rightarrow> string \<Rightarrow> string \<Rightarrow> unit prog" where
  "print_found be button_type name =
     try_except
       (flush_print_text be (''Found '' @ button_type @ '' button: '') name)
       (\<lambda>_. flush_print (''Found '' @ button_type @ '' button (name unprintable)''))"

text \<open>
  The three methods.  Each returns \<open>Some r\<close> when the source executes \<^verbatim>\<open>return r\<close> inside
  the block and \<open>None\<close> when control falls through to the next block.  The source's flag
  \<^verbatim>\<open>clicked_successfully\<close> is \<^verbatim>\<open>False\<close> at every test: each assignment of \<^verbatim>\<open>True\<close> is followed
  by \<^verbatim>\<open>return True\<close>.  The failure line of a method is written in its \<^verbatim>\<open>except\<close> handler,
  outside every \<^verbatim>\<open>try\<close>: when that write raises, the error leaves \<open>click_button\<close>.
\<close>

definition method1 :: "backend \<Rightarrow> control \<Rightarrow> string \<Rightarrow> bool option prog" where
  "method1 be button button_type =
     try_except
       (bnd (call (\<lambda>h. r_Invoke be h button) (Invoke button)) (\<lambda>_.
        bnd (flush_print (''Success: '' @ button_type @ '' button invoked via UIA Pattern!'')) (\<lambda>_.
        bnd (sleep (1/2)) (\<lambda>_.
        ret (Some True)))))
       (\<lambda>e. bnd (flush_print_text be ''Invoke failed: '' (str e)) (\<lambda>_. ret None))"

definition method2 :: "backend \<Rightarrow> control \<Rightarrow> string \<Rightarrow> bool option prog" where
  "method2 be button button_type =
     try_except
       (bnd (call (\<lambda>h. r_GetLegacyIAccessiblePattern be h button)
                  (GetLegacyIAccessiblePattern button)) (\<lambda>legacy.
        if legacy then
          bnd (call (\<lambda>h. r_DoDefaultAction be h button) (DoDefaultAction button)) (\<lambda>_.
          bnd (flush_print (''Success: '' @ button_type @ '' button invoked via LegacyIAccessible!'')) (\<lambda>_.
          bnd (sleep (1/2)) (\<lambda>_.
          ret (Some True))))
        else ret None))
       (\<lambda>e. bnd (flush_print_text be ''Legacy IAccessible failed: '' (str e)) (\<lambda>_. ret None))"

definition method3 :: "backend \<Rightarrow> control \<Rightarrow> string \<Rightarrow> bool option prog" where
  "method3 be button button_type =
     try_except
       (bnd (call (\<lambda>h. r_Click be h button) (Click button)) (\<lambda>_.
        bnd (flush_print (''Fallback: '' @ button_type @ '' button physical click used (Mouse Moved)'')) (\<lambda>_.
        ret (Some True))))
       (\<lambda>e. bnd (flush_print_text be ''Physical click failed: '' (str e)) (\<lambda>_. ret None))"

definition methods :: "backend \<Rightarrow> control \<Rightarrow> string \<Rightarrow> bool prog" where
  "methods be button button_type =
     bnd (method1 be button button_type) (\<lambda>r1.
     case r1 of Some r \<Rightarrow> ret r | None \<Rightarrow>
     bnd (method2 be button button_type) (\<lambda>r2.
     case r2 of Some r \<Rightarrow> ret r | None \<Rightarrow>
     bnd (method3 be button button_type) (\<lambda>r3.
     case r3 of Some r \<Rightarrow> ret r | None \<Rightarrow>
     ret False)))"

definition click_button :: "backend \<Rightarrow> control \<Rightarrow> string \<Rightarrow> rat \<Rightarrow> bool prog" where
  "click_button be button button_type click_delay =
     bnd (call (\<lambda>h. r_Exists be h button) (Exists button)) (\<lambda>ex.
     if \<not> ex then ret False else
     bnd (call (\<lambda>h. r_Name be h button) (Name button)) (\<lambda>name.
     bnd (print_found be button_type name) (\<lambda>_.
     bnd (call (\<lambda>h. r_IsEnabled be h button) (IsEnabled button)) (\<lambda>en.
     if en then
       bnd (if click_delay > 0 then sleep click_delay else ret ()) (\<lambda>_.
       methods be button button_type)
     else ret False))))"

subsection \<open>The watch loop of \<^verbatim>\<open>main\<close>\<close>

text \<open>
  \<open>for_windows\<close> is the \<^verbatim>\<open>for window in ...\<close> loop (lines 95 to 112) over the windows still
  to visit: \<^verbatim>\<open>continue\<close> and the end of the body go on with the rest of the list, \<^verbatim>\<open>break\<close>
  returns.
\<close>

fun for_windows :: "backend \<Rightarrow> string \<Rightarrow> string \<Rightarrow> rat \<Rightarrow> window list \<Rightarrow> unit prog" where
  "for_windows be accept_pattern confirm_pattern click_delay [] = ret ()"
| "for_windows be accept_pattern confirm_pattern click_delay (window # rest) =
     bnd (call (\<lambda>h. r_ClassName be h window) (ClassName window)) (\<lambda>cls.
     if cls \<noteq> ''Chrome_WidgetWin_1''
     then for_windows be accept_pattern confirm_pattern click_delay rest
     else
       bnd (call (\<lambda>h. r_ButtonControl be h window 15 accept_pattern)
                 (ButtonControl window 15 accept_pattern)) (\<lambda>accept_button.
       bnd (click_button be accept_button ''Accept'' click_delay) (\<lambda>accepted.
       if accepted then
         bnd (sleep (1/2)) (\<lambda>_.
         bnd (call (\<lambda>h. r_ButtonControl be h window 15 confirm_pattern)
                   (ButtonControl window 15 confirm_pattern)) (\<lambda>confirm_button.
         bnd (call (\<lambda>h. r_Exists be h confirm_button) (Exists confirm_button)) (\<lambda>ex.
         if ex
         then bnd (click_button be confirm_button ''Confirm'' click_delay) (\<lambda>_. ret ())
         else ret ())))
       else
         bnd (call (\<lambda>h. r_ButtonControl be h window 15 confirm_pattern)
                   (ButtonControl window 15 confirm_pattern)) (\<lambda>confirm_button.
         bnd (click_button be confirm_button ''Confirm'' click_delay) (\<lambda>confirmed.
         if confirmed then ret ()
         else for_windows be accept_pattern confirm_pattern click_delay rest)))))"

text \<open>
  The body of the inner \<^verbatim>\<open>try\<close> (lines 94 to 112).  The two patterns and the delay are the
  values \<^verbatim>\<open>main\<close> parses from the command line (defaults \<^verbatim>\<open>Accept.*\<close>, \<^verbatim>\<open>Confirm.*\<close> and
  \<^verbatim>\<open>0.0\<close>); the start-up lines of \<^verbatim>\<open>main\<close> are not part of the loop and are left out.
  \<^verbatim>\<open>ButtonControl\<close> is recorded as the subtree search for a button of the given name pattern
  within the given depth.
\<close>

definition cycle_body :: "backend \<Rightarrow> string \<Rightarrow> string \<Rightarrow> rat \<Rightarrow> unit prog" where
  "cycle_body be accept_pattern confirm_pattern click_delay =
     bnd (call (r_GetChildren be) GetChildren)
         (for_windows be accept_pattern confirm_pattern click_delay)"

text \<open>One iteration of \<^verbatim>\<open>while True\<close> (lines 93 to 117): the handler is \<^verbatim>\<open>pass\<close>.\<close>

definition cycle :: "backend \<Rightarrow> string \<Rightarrow> string \<Rightarrow> rat \<Rightarrow> unit prog" where
  "cycle be accept_pattern confirm_pattern click_delay =
     bnd (try_except (cycle_body be accept_pattern confirm_pattern click_delay) (\<lambda>e. ret ()))
         (\<lambda>_. sleep (1/2))"

text \<open>
  \<^verbatim>\<open>while True\<close> has no exit of its own, so the loop is observed through its first \<open>n\<close>
  iterations: \<open>main_loop \<dots> n\<close> runs \<open>n\<close> cycles, and stops earlier only if a cycle raises.
\<close>

fun main_loop :: "backend \<Rightarrow> string \<Rightarrow> string \<Rightarrow> rat \<Rightarrow> nat \<Rightarrow> unit prog" where
  "main_loop be accept_pattern confirm_pattern click_delay 0 = ret ()"
| "main_loop be accept_pattern confirm_pattern click_delay (Suc n) =
     bnd (cycle be accept_pattern confirm_pattern click_delay)
         (\<lambda>_. main_loop be accept_pattern confirm_pattern click_delay n)"

subsection \<open>Observations on histories\<close>

text \<open>The calls that activate a control.\<close>

fun is_strategy :: "event \<Rightarrow> bool" where
  "is_strategy (Invoke c) = True"
| "is_strategy (GetLegacyIAccessiblePattern c) = True"
| "is_strategy (DoDefaultAction c) = True"
| "is_strategy (Click c) = True"
| "is_strategy _ = False"

text \<open>The calls that query windows: enumeration, class read, subtree search.\<close>

fun is_search :: "event \<Rightarrow> bool" where
  "is_search GetChildren = True"
| "is_search (ClassName w) = True"
| "is_search (ButtonControl w depth pat) = True"
| "is_search _ = False"

fun is_print :: "event \<Rightarrow> bool" where
  "is_print (Print m) = True"
| "is_print _ = False"

definition strategy_calls :: "history \<Rightarrow> event list" where
  "strategy_calls h = filter is_strategy h"

text \<open>The line \<open>print_found\<close> writes for a control of the given name.\<close>

definition found_line :: "backend \<Rightarrow> string \<Rightarrow> string \<Rightarrow> string" where
  "found_line be button_type name =
     (if printable be name then ''Found '' @ button_type @ '' button: '' @ name
      else ''Found '' @ button_type @ '' button (name unprintable)'')"

text \<open>
  The history at which method 1 starts, for a control that was found to exist, whose name
  read gave \<open>name\<close> and that was found enabled, when \<open>click_button\<close> was entered at \<open>h\<close>.
\<close>

definition at_methods :: "backend \<Rightarrow> history \<Rightarrow> control \<Rightarrow> string \<Rightarrow> string \<Rightarrow> rat \<Rightarrow> history" where
  "at_methods be h button button_type name click_delay =
     h @ [Exists button, Name button, Print (found_line be button_type name), IsEnabled button]
       @ (if click_delay > 0 then [Sleep click_delay] else [])"



text \<open>\<open>emits P m h\<close>: run from \<open>h\<close>, the program \<open>m\<close> only appends calls, all of them in \<open>P\<close>.\<close>

definition emits :: "(event \<Rightarrow> bool) \<Rightarrow> 'a prog \<Rightarrow> history \<Rightarrow> bool" where
  "emits P m h \<longleftrightarrow> (\<exists>evs. snd (m h) = h @ evs \<and> list_all P evs)"

text \<open>The calls \<open>click_button\<close> can make on a control.\<close>

fun cascade_event :: "control \<Rightarrow> event \<Rightarrow> bool" where
  "cascade_event b (Exists c) = (c = b)"
| "cascade_event b (Name c) = (c = b)"
| "cascade_event b (IsEnabled c) = (c = b)"
| "cascade_event b (Invoke c) = (c = b)"
| "cascade_event b (GetLegacyIAccessiblePattern c) = (c = b)"
| "cascade_event b (DoDefaultAction c) = (c = b)"
| "cascade_event b (Click c) = (c = b)"
| "cascade_event b (Sleep d) = True"
| "cascade_event b (Print m) = True"
| "cascade_event b _ = False"

text \<open>The first property read of \<open>click_button\<close> that raises, with the history it leaves.\<close>

definition property_read_error ::
    "backend \<Rightarrow> history \<Rightarrow> control \<Rightarrow> string \<Rightarrow> (exn \<times> history) option" where
  "property_read_error be h button button_type =
     (case r_Exists be h button of
        Inl e \<Rightarrow> Some (e, h @ [Exists button])
      | Inr False \<Rightarrow> None
      | Inr True \<Rightarrow>
         (case r_Name be (h @ [Exists button]) button of
            Inl e \<Rightarrow> Some (e, h @ [Exists button, Name button])
          | Inr name \<Rightarrow>
             (case r_IsEnabled be
                     (h @ [Exists button, Name button, Print (found_line be button_type name)]) button of
                Inl e \<Rightarrow> Some (e, h @ [Exists button, Name button,
                                         Print (found_line be button_type name), IsEnabled button])
              | Inr _ \<Rightarrow> None)))"

text \<open>
  Freshness of the checks.  The state records for which control existence, and for which
  control the enabled flag, has been checked since the last time gap; a \<open>Sleep\<close> is a time
  gap and clears both.  A history is \<open>verified_before_action\<close> when every activation call
  is made on a control whose existence and enabled flag are both freshly checked.
\<close>

type_synonym checked = "control option \<times> control option"

fun acted_on :: "event \<Rightarrow> control option" where
  "acted_on (Invoke c) = Some c"
| "acted_on (GetLegacyIAccessiblePattern c) = Some c"
| "acted_on (DoDefaultAction c) = Some c"
| "acted_on (Click c) = Some c"
| "acted_on _ = None"

fun check_step :: "checked \<Rightarrow> event \<Rightarrow> checked" where
  "check_step (ex, en) (Exists c) = (Some c, en)"
| "check_step (ex, en) (IsEnabled c) = (ex, Some c)"
| "check_step (ex, en) (Sleep t) = (None, None)"
| "check_step (ex, en) _ = (ex, en)"

fun verified_before_action :: "checked \<Rightarrow> event list \<Rightarrow> bool" where
  "verified_before_action s [] = True"
| "verified_before_action s (ev # evs) =
     ((case acted_on ev of Some c \<Rightarrow> s = (Some c, Some c) | None \<Rightarrow> True) \<and>
      verified_before_action (check_step s ev) evs)"

subsection \<open>Concrete backends\<close>

text \<open>
  One target window; the Accept search gives control 1, any other search control 2; every
  call succeeds.
\<close>

definition ok_backend :: backend where
  "ok_backend =
     \<lparr> r_GetChildren = (\<lambda>h. Inr [Window 0]),
       r_ClassName = (\<lambda>h w. Inr ''Chrome_WidgetWin_1''),
       r_ButtonControl = (\<lambda>h w depth pat. Inr (if pat = ''Accept.*'' then Control 1 else Control 2)),
       r_Exists = (\<lambda>h c. Inr True),
       r_Name = (\<lambda>h c. Inr (if c = Control 1 then ''Accept'' else ''Confirm Changes'')),
       r_IsEnabled = (\<lambda>h c. Inr True),
       r_Invoke = (\<lambda>h c. Inr ()),
       r_GetLegacyIAccessiblePattern = (\<lambda>h c. Inr True),
       r_DoDefaultAction = (\<lambda>h c. Inr ()),
       r_Click = (\<lambda>h c. Inr ()),
       printable = (\<lambda>name. True) \<rparr>"

text \<open>A control that supports neither programmatic pattern and can only be clicked.\<close>

definition click_only_backend :: backend where
  "click_only_backend =
     ok_backend \<lparr> r_Invoke := (\<lambda>h c. Inl (Exception ''no InvokePattern'')),
                  r_GetLegacyIAccessiblePattern := (\<lambda>h c. Inr False) \<rparr>"

definition disabled_backend :: backend where
  "disabled_backend = ok_backend \<lparr> r_IsEnabled := (\<lambda>h c. Inr False) \<rparr>"

text \<open>A control that exists the first time it is asked and is gone afterwards.\<close>

definition ghost_backend :: backend where
  "ghost_backend = ok_backend \<lparr> r_Exists := (\<lambda>h c. Inr (Exists c \<notin> set h)) \<rparr>"

text \<open>A backend whose window enumeration raises.\<close>

definition enum_fails_backend :: backend where
  "enum_fails_backend = ok_backend \<lparr> r_GetChildren := (\<lambda>h. Inl (Exception ''COMError'')) \<rparr>"

text \<open>Two windows, the first of another application.\<close>

definition two_window_backend :: backend where
  "two_window_backend =
     ok_backend \<lparr> r_GetChildren := (\<lambda>h. Inr [Window 7, Window 0]),
                  r_ClassName := (\<lambda>h w. Inr (if w = Window 7 then ''Shell_TrayWnd''
                                              else ''Chrome_WidgetWin_1'')) \<rparr>"

text \<open>A control whose name cannot be read.\<close>

definition name_raises_backend :: backend where
  "name_raises_backend = ok_backend \<lparr> r_Name := (\<lambda>h c. Inl (Exception ''element gone'')) \<rparr>"

text \<open>Only the Accept button (control 1) is there.\<close>

definition accept_only_backend :: backend where
  "accept_only_backend = ok_backend \<lparr> r_Exists := (\<lambda>h c. Inr (c = Control 1)) \<rparr>"

text \<open>Only the Confirm button (control 2) is there.\<close>

definition confirm_only_backend :: backend where
  "confirm_only_backend = ok_backend \<lparr> r_Exists := (\<lambda>h c. Inr (c = Control 2)) \<rparr>"

section \<open>Properties\<close>

subsection \<open>Running the programs\<close>

lemmas run_defs = bnd_def ret_def call_def try_except_def sleep_def flush_print_def
  flush_print_text_def

lemma print_found_run:
  "print_found be bt name h = (Inr (), h @ [Print (found_line be bt name)])"
  by (simp add: print_found_def found_line_def run_defs)

lemma method1_run:
  "method1 be b bt h =
     (case r_Invoke be h b of
        Inr _ \<Rightarrow> (Inr (Some True),
                  h @ [Invoke b, Print (''Success: '' @ bt @ '' button invoked via UIA Pattern!''), Sleep (1/2)])
      | Inl e \<Rightarrow>
          (if printable be (str e)
           then (Inr None, h @ [Invoke b, Print (''Invoke failed: '' @ str e)])
           else (Inl (Exception ''UnicodeEncodeError''), h @ [Invoke b])))"
  by (simp add: method1_def run_defs split: sum.splits)

lemma method2_run:
  "method2 be b bt h =
     (case r_GetLegacyIAccessiblePattern be h b of
        Inr legacy \<Rightarrow>
          (if legacy then
             (case r_DoDefaultAction be (h @ [GetLegacyIAccessiblePattern b]) b of
                Inr _ \<Rightarrow> (Inr (Some True),
                  h @ [GetLegacyIAccessiblePattern b, DoDefaultAction b,
                       Print (''Success: '' @ bt @ '' button invoked via LegacyIAccessible!''), Sleep (1/2)])
              | Inl e \<Rightarrow>
                  (if printable be (str e)
                   then (Inr None,
                     h @ [GetLegacyIAccessiblePattern b, DoDefaultAction b,
                          Print (''Legacy IAccessible failed: '' @ str e)])
                   else (Inl (Exception ''UnicodeEncodeError''),
                     h @ [GetLegacyIAccessiblePattern b, DoDefaultAction b])))
           else (Inr None, h @ [GetLegacyIAccessiblePattern b]))
      | Inl e \<Rightarrow>
          (if printable be (str e)
           then (Inr None, h @ [GetLegacyIAccessiblePattern b,
                                Print (''Legacy IAccessible failed: '' @ str e)])
           else (Inl (Exception ''UnicodeEncodeError''), h @ [GetLegacyIAccessiblePattern b])))"
  by (simp add: method2_def run_defs split: sum.splits)

lemma method3_run:
  "method3 be b bt h =
     (case r_Click be h b of
        Inr _ \<Rightarrow> (Inr (Some True),
                  h @ [Click b, Print (''Fallback: '' @ bt @ '' button physical click used (Mouse Moved)'')])
      | Inl e \<Rightarrow>
          (if printable be (str e)
           then (Inr None, h @ [Click b, Print (''Physical click failed: '' @ str e)])
           else (Inl (Exception ''UnicodeEncodeError''), h @ [Click b])))"
  by (simp add: method3_def run_defs split: sum.splits)


lemma click_button_enabled:
  assumes ex: "r_Exists be h button = Inr True"
      and nm: "r_Name be (h @ [Exists button]) button = Inr name"
      and en: "r_IsEnabled be (h @ [Exists button, Name button, Print (found_line be button_type name)]) button = Inr True"
  shows "click_button be button button_type click_delay h =
           methods be button button_type (at_methods be h button button_type name click_delay)"
  using assms by (simp add: click_button_def print_found_run at_methods_def run_defs)

lemma methods_run:
  "methods be b bt h =
     (case method1 be b bt h of
        (Inl e, h') \<Rightarrow> (Inl e, h')
      | (Inr (Some r), h') \<Rightarrow> (Inr r, h')
      | (Inr None, h') \<Rightarrow>
          (case method2 be b bt h' of
             (Inl e, h'') \<Rightarrow> (Inl e, h'')
           | (Inr (Some r), h'') \<Rightarrow> (Inr r, h'')
           | (Inr None, h'') \<Rightarrow>
               (case method3 be b bt h'' of
                  (Inl e, h3) \<Rightarrow> (Inl e, h3)
                | (Inr (Some r), h3) \<Rightarrow> (Inr r, h3)
                | (Inr None, h3) \<Rightarrow> (Inr False, h3))))"
  by (simp add: methods_def bnd_def ret_def split: prod.splits sum.splits option.splits)


lemma methods_failure_line_unwritable:
  assumes "r_Invoke be h b = Inl e" and "\<not> printable be (str e)"
  shows "methods be b bt h = (Inl (Exception ''UnicodeEncodeError''), h @ [Invoke b])"
  using assms by (simp add: methods_run method1_run)



text \<open>
  C8.  When the existence check at the entry of \<open>click_button\<close> answers \<open>False\<close>, the function
  returns \<open>False\<close> (the not-found outcome) and the existence check is the only call it made:
  no activation strategy is attempted.
\<close>

theorem click_button_not_found:
  assumes "r_Exists be h button = Inr False"
  shows "click_button be button button_type click_delay h = (Inr False, h @ [Exists button])"
  using assms by (simp add: click_button_def bnd_def call_def ret_def)

theorem click_button_not_found_witness:
  "r_Exists ghost_backend [Exists (Control 2)] (Control 2) = Inr False \<and>
   click_button ghost_backend (Control 2) ''Confirm'' 0 [Exists (Control 2)]
     = (Inr False, [Exists (Control 2), Exists (Control 2)])"
proof -
  have g: "r_Exists ghost_backend [Exists (Control 2)] (Control 2) = Inr False"
    by (simp add: ghost_backend_def ok_backend_def)
  show ?thesis
    using g click_button_not_found [OF g, of "''Confirm''" 0] by simp
qed

text \<open>
  C2.  A control that exists but reports itself disabled: \<open>click_button\<close> returns \<open>False\<close>
  (the code's outcome for a disabled control) after the existence check, the name read, the
  log line and the enabled check.  It makes no activation call and does not sleep.
\<close>

theorem click_button_disabled:
  assumes "r_Exists be h button = Inr True"
      and "r_Name be (h @ [Exists button]) button = Inr name"
      and "r_IsEnabled be (h @ [Exists button, Name button, Print (found_line be button_type name)])
             button = Inr False"
  shows "click_button be button button_type click_delay h =
           (Inr False, h @ [Exists button, Name button, Print (found_line be button_type name),
                            IsEnabled button])
         \<and> strategy_calls (snd (click_button be button button_type click_delay h)) = strategy_calls h"
  using assms by (simp add: click_button_def print_found_run run_defs strategy_calls_def)

theorem click_button_disabled_witness:
  "r_Exists disabled_backend [] (Control 1) = Inr True \<and>
   r_Name disabled_backend [Exists (Control 1)] (Control 1) = Inr ''Accept'' \<and>
   r_IsEnabled disabled_backend [Exists (Control 1), Name (Control 1), Print ''Found Accept button: Accept'']
     (Control 1) = Inr False \<and>
   click_button disabled_backend (Control 1) ''Accept'' 2 [] =
     (Inr False, [Exists (Control 1), Name (Control 1), Print ''Found Accept button: Accept'',
                  IsEnabled (Control 1)]) \<and>
   strategy_calls (snd (click_button disabled_backend (Control 1) ''Accept'' 2 [])) = []"
  using click_button_disabled [of disabled_backend "[]" "Control 1" "''Accept''" "''Accept''" 2]
  by (simp add: disabled_backend_def ok_backend_def found_line_def strategy_calls_def)



subsection \<open>What the programs append to the history\<close>

lemma emits_ret: "emits P (ret x) h"
  by (simp add: emits_def ret_def)

lemma emits_call: "P ev \<Longrightarrow> emits P (call r ev) h"
  by (simp add: emits_def call_def)

lemma emits_sleep: "P (Sleep d) \<Longrightarrow> emits P (sleep d) h"
  by (simp add: emits_def sleep_def)

lemma emits_print: "P (Print m) \<Longrightarrow> emits P (flush_print m) h"
  by (simp add: emits_def flush_print_def)

lemma emits_bnd:
  assumes m: "emits P m h"
      and f: "\<And>x h'. m h = (Inr x, h') \<Longrightarrow> emits P (f x) h'"
  shows "emits P (bnd m f) h"
proof (cases "m h")
  case (Pair res h')
  from m Pair obtain evs where evs: "h' = h @ evs" "list_all P evs"
    by (auto simp add: emits_def)
  show ?thesis
  proof (cases res)
    case (Inl e)
    then show ?thesis using Pair evs by (simp add: emits_def bnd_def)
  next
    case (Inr x)
    then obtain evs' where "snd (f x h') = h' @ evs'" "list_all P evs'"
      using f Pair by (auto simp add: emits_def)
    then show ?thesis using Pair Inr evs by (simp add: emits_def bnd_def)
  qed
qed

lemma emits_try:
  assumes m: "emits P m h"
      and f: "\<And>e h'. m h = (Inl e, h') \<Longrightarrow> emits P (hdl e) h'"
  shows "emits P (try_except m hdl) h"
proof (cases "m h")
  case (Pair res h')
  from m Pair obtain evs where evs: "h' = h @ evs" "list_all P evs"
    by (auto simp add: emits_def)
  show ?thesis
  proof (cases res)
    case (Inr x)
    then show ?thesis using Pair evs by (simp add: emits_def try_except_def)
  next
    case (Inl e)
    then obtain evs' where "snd (hdl e h') = h' @ evs'" "list_all P evs'"
      using f Pair by (auto simp add: emits_def)
    then show ?thesis using Pair Inl evs by (simp add: emits_def try_except_def)
  qed
qed

lemma emits_mono: "emits P m h \<Longrightarrow> (\<And>ev. P ev \<Longrightarrow> Q ev) \<Longrightarrow> emits Q m h"
  by (auto simp add: emits_def list_all_iff)

lemma emits_method1: "emits (cascade_event b) (method1 be b bt) h"
  by (simp add: emits_def method1_run split: sum.splits)

lemma emits_method2: "emits (cascade_event b) (method2 be b bt) h"
  by (simp add: emits_def method2_run split: sum.splits)

lemma emits_method3: "emits (cascade_event b) (method3 be b bt) h"
  by (simp add: emits_def method3_run split: sum.splits)

lemma methods_emits: "emits (cascade_event b) (methods be b bt) h"
  unfolding methods_def
  by (auto intro!: emits_bnd emits_ret emits_method1 emits_method2 emits_method3 split: option.splits)

lemma emits_print_found: "emits (cascade_event b) (print_found be bt name) h"
  by (simp add: emits_def print_found_run)

lemma click_button_emits: "emits (cascade_event b) (click_button be b bt d) h"
  unfolding click_button_def
  by (auto intro!: emits_bnd emits_call emits_ret emits_sleep emits_print_found methods_emits)

lemma cascade_event_not_search: "cascade_event b ev \<Longrightarrow> \<not> is_search ev"
  by (cases ev) simp_all

lemma emits_if:
  "(c \<Longrightarrow> emits P a h) \<Longrightarrow> (\<not> c \<Longrightarrow> emits P b h) \<Longrightarrow> emits P (if c then a else b) h"
  by simp

lemma for_windows_emits:
  assumes P: "\<And>ev. \<not> is_search ev \<Longrightarrow> P ev"
      and cls: "\<And>w. P (ClassName w)"
      and srch: "\<And>w h' pat. r_ClassName be h' w = Inr ''Chrome_WidgetWin_1'' \<Longrightarrow> P (ButtonControl w 15 pat)"
  shows "emits P (for_windows be ap cp d ws) h"
proof (induction ws arbitrary: h)
  case Nil
  show ?case by (simp add: emits_ret)
next
  case (Cons w rest)
  have cb: "emits P (click_button be b bt d) h'" for b bt h'
    using click_button_emits [of b be bt d h'] cascade_event_not_search [of b] P
    by (auto intro: emits_mono)
  have sl: "P (Sleep t)" for t using P by simp
  have ex: "P (Exists c)" for c using P by simp
  show ?case
    unfolding for_windows.simps
  proof (rule emits_bnd)
    show "emits P (call (\<lambda>h. r_ClassName be h w) (ClassName w)) h"
      by (rule emits_call) (rule cls)
  next
    fix x h'
    assume "call (\<lambda>h. r_ClassName be h w) (ClassName w) h = (Inr x, h')"
    then have "r_ClassName be h w = Inr x" by (simp add: call_def)
    then have bc: "\<not> x \<noteq> ''Chrome_WidgetWin_1'' \<Longrightarrow> P (ButtonControl w 15 pat)" for pat
      using srch by blast
    show "emits P (if x \<noteq> ''Chrome_WidgetWin_1'' then for_windows be ap cp d rest
       else 
       bnd (call (\<lambda>h. r_ButtonControl be h w 15 ap)
                 (ButtonControl w 15 ap)) (\<lambda>accept_button.
       bnd (click_button be accept_button ''Accept'' d) (\<lambda>accepted.
       if accepted then
         bnd (sleep (1/2)) (\<lambda>_.
         bnd (call (\<lambda>h. r_ButtonControl be h w 15 cp)
                   (ButtonControl w 15 cp)) (\<lambda>confirm_button.
         bnd (call (\<lambda>h. r_Exists be h confirm_button) (Exists confirm_button)) (\<lambda>ex.
         if ex
         then bnd (click_button be confirm_button ''Confirm'' d) (\<lambda>_. ret ())
         else ret ())))
       else
         bnd (call (\<lambda>h. r_ButtonControl be h w 15 cp)
                   (ButtonControl w 15 cp)) (\<lambda>confirm_button.
         bnd (click_button be confirm_button ''Confirm'' d) (\<lambda>confirmed.
         if confirmed then ret ()
         else for_windows be ap cp d rest))))) h'" 
      by (intro emits_if emits_bnd emits_call emits_sleep emits_ret cb bc sl ex Cons.IH)
  qed
qed

lemma cycle_body_run:
  "cycle_body be ap cp d h =
     (case r_GetChildren be h of
        Inl e \<Rightarrow> (Inl e, h @ [GetChildren])
      | Inr ws \<Rightarrow> for_windows be ap cp d ws (h @ [GetChildren]))"
  by (simp add: cycle_body_def bnd_def call_def split: sum.splits)

lemma cycle_run:
  "cycle be ap cp d h = (Inr (), snd (cycle_body be ap cp d h) @ [Sleep (1/2)])"
  by (simp add: cycle_def bnd_def try_except_def ret_def sleep_def split: prod.splits sum.splits)

lemma cycle_body_emits:
  assumes P: "\<And>ev. \<not> is_search ev \<Longrightarrow> P ev"
      and enum: "P GetChildren"
      and cls: "\<And>w. P (ClassName w)"
      and srch: "\<And>w h' pat. r_ClassName be h' w = Inr ''Chrome_WidgetWin_1'' \<Longrightarrow> P (ButtonControl w 15 pat)"
  shows "emits P (cycle_body be ap cp d) h"
  unfolding cycle_body_def
  by (intro emits_bnd emits_call enum for_windows_emits P cls srch)

lemma cycle_emits:
  assumes P: "\<And>ev. \<not> is_search ev \<Longrightarrow> P ev"
      and enum: "P GetChildren"
      and cls: "\<And>w. P (ClassName w)"
      and srch: "\<And>w h' pat. r_ClassName be h' w = Inr ''Chrome_WidgetWin_1'' \<Longrightarrow> P (ButtonControl w 15 pat)"
  shows "emits P (cycle be ap cp d) h"
proof -
  have sl: "P (Sleep t)" for t using P by simp
  show ?thesis
    unfolding cycle_def
    by (intro emits_bnd emits_try emits_ret emits_sleep sl cycle_body_emits P enum cls srch)
qed

lemma main_loop_emits:
  assumes P: "\<And>ev. \<not> is_search ev \<Longrightarrow> P ev"
      and enum: "P GetChildren"
      and cls: "\<And>w. P (ClassName w)"
      and srch: "\<And>w h' pat. r_ClassName be h' w = Inr ''Chrome_WidgetWin_1'' \<Longrightarrow> P (ButtonControl w 15 pat)"
  shows "emits P (main_loop be ap cp d n) h"
proof (induction n arbitrary: h)
  case 0
  show ?case by (simp add: emits_ret)
next
  case (Suc n)
  show ?case
    unfolding main_loop.simps
    by (intro emits_bnd cycle_emits Suc.IH P enum cls srch)
qed

text \<open>
  C9.  A window that never reports the class \<^verbatim>\<open>Chrome_WidgetWin_1\<close>: however many cycles the
  loop runs and whatever else the backend answers, no \<open>ButtonControl\<close> search is made on it;
  and when its class is read in the window loop, the loop goes on with the remaining windows
  with the class read as the only call on that window.  The class is the only property of a
  window the loop reads.
\<close>

theorem non_target_window_never_searched:
  assumes "\<forall>h'. r_ClassName be h' w \<noteq> Inr ''Chrome_WidgetWin_1''"
  shows "(\<exists>evs. snd (main_loop be ap cp d n h) = h @ evs \<and>
                (\<forall>depth pat. ButtonControl w depth pat \<notin> set evs)) \<and>
         (\<forall>cls. r_ClassName be h w = Inr cls \<longrightarrow>
                for_windows be ap cp d (w # rest) h = for_windows be ap cp d rest (h @ [ClassName w]))"
proof
  have "emits (\<lambda>ev. \<forall>depth pat. ev \<noteq> ButtonControl w depth pat) (main_loop be ap cp d n) h"
  proof (rule main_loop_emits)
    fix ev show "\<not> is_search ev \<Longrightarrow> \<forall>depth pat. ev \<noteq> ButtonControl w depth pat"
      by (cases ev) simp_all
  next
    fix w' h' pat
    assume "r_ClassName be h' w' = Inr ''Chrome_WidgetWin_1''"
    then have "w' \<noteq> w" using assms by auto
    then show "\<forall>depth pat'. ButtonControl w' 15 pat \<noteq> ButtonControl w depth pat'" by simp
  qed simp_all
  then show "\<exists>evs. snd (main_loop be ap cp d n h) = h @ evs \<and>
                (\<forall>depth pat. ButtonControl w depth pat \<notin> set evs)"
    by (auto simp add: emits_def list_all_iff)
next
  show "\<forall>cls. r_ClassName be h w = Inr cls \<longrightarrow>
          for_windows be ap cp d (w # rest) h = for_windows be ap cp d rest (h @ [ClassName w])"
    using assms by (auto simp add: bnd_def call_def)
qed

theorem non_target_window_never_searched_witness:
  "(\<forall>h'. r_ClassName two_window_backend h' (Window 7) \<noteq> Inr ''Chrome_WidgetWin_1'') \<and>
   (\<forall>depth pat. ButtonControl (Window 7) depth pat
      \<notin> set (snd (main_loop two_window_backend ''Accept.*'' ''Confirm.*'' 0 2 []))) \<and>
   for_windows two_window_backend ''Accept.*'' ''Confirm.*'' 0 [Window 7, Window 0] [] =
     for_windows two_window_backend ''Accept.*'' ''Confirm.*'' 0 [Window 0] [ClassName (Window 7)]"
proof -
  have a: "\<forall>h'. r_ClassName two_window_backend h' (Window 7) \<noteq> Inr ''Chrome_WidgetWin_1''"
    by (simp add: two_window_backend_def ok_backend_def)
  have b: "r_ClassName two_window_backend [] (Window 7) = Inr ''Shell_TrayWnd''"
    by (simp add: two_window_backend_def ok_backend_def)
  show ?thesis
    using a b non_target_window_never_searched [OF a, of "''Accept.*''" "''Confirm.*''" 0 2 "[]" "[Window 0]"]
    by simp
qed

subsection \<open>The cycle boundary\<close>

lemma cycle_body_extends:
  "\<exists>evs. snd (cycle_body be ap cp d h) = h @ GetChildren # evs \<and> GetChildren \<notin> set evs"
proof (cases "r_GetChildren be h")
  case (Inl e)
  then show ?thesis by (simp add: cycle_body_run)
next
  case (Inr ws)
  have "emits (\<lambda>ev. ev \<noteq> GetChildren) (for_windows be ap cp d ws) (h @ [GetChildren])"
  proof (rule for_windows_emits)
    fix ev show "\<not> is_search ev \<Longrightarrow> ev \<noteq> GetChildren" by (cases ev) simp_all
  qed simp_all
  then show ?thesis
    using Inr by (auto simp add: cycle_body_run emits_def list_all_iff)
qed

lemma cycle_enumerates_once:
  "count_list (snd (cycle be ap cp d h)) GetChildren = count_list h GetChildren + 1"
proof -
  obtain evs where "snd (cycle_body be ap cp d h) = h @ GetChildren # evs" "GetChildren \<notin> set evs"
    using cycle_body_extends by blast
  then show ?thesis by (simp add: cycle_run)
qed

lemma main_loop_enumerations:
  "fst (main_loop be ap cp d n h) = Inr () \<and>
   count_list (snd (main_loop be ap cp d n h)) GetChildren = count_list h GetChildren + n"
proof (induction n arbitrary: h)
  case 0
  show ?case by (simp add: ret_def)
next
  case (Suc n)
  have "main_loop be ap cp d (Suc n) h = main_loop be ap cp d n (snd (cycle be ap cp d h))"
    by (simp add: bnd_def cycle_run)
  then show ?case
    using Suc.IH [of "snd (cycle be ap cp d h)"] cycle_enumerates_once [of be ap cp d h] by simp
qed

text \<open>
  C5 (as amended).  An error raised anywhere in the body of a cycle is caught at the cycle
  boundary and discarded: the handler appends nothing to the history, in particular no log
  line.  The cycle then sleeps for the poll interval and ends normally, the loop goes on
  with its remaining iterations, it never raises, and every iteration enumerates the windows
  once.
\<close>

theorem cycle_error_contained:
  assumes "cycle_body be ap cp d h = (Inl e, h')"
  shows "cycle be ap cp d h = (Inr (), h' @ [Sleep (1/2)]) \<and>
         main_loop be ap cp d (Suc n) h = main_loop be ap cp d n (h' @ [Sleep (1/2)]) \<and>
         fst (main_loop be ap cp d (Suc n) h) = Inr () \<and>
         count_list (snd (main_loop be ap cp d (Suc n) h)) GetChildren
           = count_list h GetChildren + Suc n"
  using assms main_loop_enumerations [of be ap cp d "Suc n" h]
  by (simp add: cycle_run bnd_def)

theorem cycle_error_contained_witness:
  "cycle_body enum_fails_backend ''Accept.*'' ''Confirm.*'' 0 [] = (Inl (Exception ''COMError''), [GetChildren]) \<and>
   cycle enum_fails_backend ''Accept.*'' ''Confirm.*'' 0 [] = (Inr (), [GetChildren, Sleep (1/2)]) \<and>
   main_loop enum_fails_backend ''Accept.*'' ''Confirm.*'' 0 (Suc 1) [] =
     main_loop enum_fails_backend ''Accept.*'' ''Confirm.*'' 0 1 [GetChildren, Sleep (1/2)] \<and>
   count_list (snd (main_loop enum_fails_backend ''Accept.*'' ''Confirm.*'' 0 (Suc 1) [])) GetChildren = 2"
proof -
  have a: "cycle_body enum_fails_backend ''Accept.*'' ''Confirm.*'' 0 []
             = (Inl (Exception ''COMError''), [GetChildren])"
    by (simp add: cycle_body_run enum_fails_backend_def ok_backend_def)
  note t = cycle_error_contained [OF a, of 1]
  have b: "cycle enum_fails_backend ''Accept.*'' ''Confirm.*'' 0 [] = (Inr (), [GetChildren, Sleep (1/2)])"
    using t [THEN conjunct1] by simp
  have c: "main_loop enum_fails_backend ''Accept.*'' ''Confirm.*'' 0 (Suc 1) [] =
     main_loop enum_fails_backend ''Accept.*'' ''Confirm.*'' 0 1 [GetChildren, Sleep (1/2)]"
    using t [THEN conjunct2, THEN conjunct1] by (simp del: main_loop.simps)
  have d: "count_list (snd (main_loop enum_fails_backend ''Accept.*'' ''Confirm.*'' 0 (Suc 1) [])) GetChildren = 2"
    using t [THEN conjunct2, THEN conjunct2, THEN conjunct2] by (simp del: main_loop.simps)
  show ?thesis using a b c d by blast
qed

text \<open>
  The claim as the specification words it has the error logged.  A cycle whose window
  enumeration raises writes no line at all.
\<close>

theorem cycle_error_logged_counterexample:
  "fst (cycle_body enum_fails_backend ''Accept.*'' ''Confirm.*'' 0 []) = Inl (Exception ''COMError'') \<and>
   filter is_print (snd (cycle enum_fails_backend ''Accept.*'' ''Confirm.*'' 0 [])) = []"
  by (simp add: cycle_run cycle_body_run enum_fails_backend_def ok_backend_def)

subsection \<open>Property reads\<close>

lemma click_button_read_error:
  assumes "property_read_error be h b bt = Some (e, hr)"
  shows "click_button be b bt d h = (Inl e, hr)"
  using assms
  by (auto simp add: property_read_error_def click_button_def print_found_run bnd_def call_def ret_def
        split: sum.splits bool.splits)

text \<open>
  C10.  The existence check, the name read and the enabled read of \<open>click_button\<close> are outside
  every handler of the function.  When one of them raises on the Accept button of a target
  window, \<open>click_button\<close> raises that error, the window loop raises it without visiting the
  remaining windows, and the cycle boundary absorbs it: the cycle sleeps for the poll interval
  and ends normally, and the loop goes on with its remaining iterations.
\<close>

theorem property_read_error_escapes_cascade:
  assumes "r_ClassName be h window = Inr ''Chrome_WidgetWin_1''"
      and "r_ButtonControl be (h @ [ClassName window]) window 15 ap = Inr button"
      and "property_read_error be (h @ [ClassName window, ButtonControl window 15 ap]) button ''Accept''
             = Some (e, hr)"
  shows "click_button be button ''Accept'' d (h @ [ClassName window, ButtonControl window 15 ap])
           = (Inl e, hr) \<and>
         for_windows be ap cp d (window # rest) h = (Inl e, hr) \<and>
         (\<forall>h0. r_GetChildren be h0 = Inr (window # rest) \<and> h = h0 @ [GetChildren] \<longrightarrow>
               cycle be ap cp d h0 = (Inr (), hr @ [Sleep (1/2)]) \<and>
               main_loop be ap cp d (Suc n) h0 = main_loop be ap cp d n (hr @ [Sleep (1/2)]))"
proof -
  have cb: "click_button be button ''Accept'' d (h @ [ClassName window, ButtonControl window 15 ap])
              = (Inl e, hr)"
    using assms(3) by (rule click_button_read_error)
  have fw: "for_windows be ap cp d (window # rest) h = (Inl e, hr)"
    using assms(1,2) cb by (simp add: bnd_def call_def)
  have "cycle be ap cp d h0 = (Inr (), hr @ [Sleep (1/2)]) \<and>
        main_loop be ap cp d (Suc n) h0 = main_loop be ap cp d n (hr @ [Sleep (1/2)])"
    if "r_GetChildren be h0 = Inr (window # rest)" "h = h0 @ [GetChildren]" for h0
  proof -
    have "cycle_body be ap cp d h0 = (Inl e, hr)"
      using that fw by (simp add: cycle_body_run)
    then show ?thesis by (simp add: cycle_run bnd_def)
  qed
  then show ?thesis using cb fw by blast
qed

theorem property_read_error_escapes_cascade_witness:
  "r_ClassName name_raises_backend [GetChildren] (Window 0) = Inr ''Chrome_WidgetWin_1'' \<and>
   r_ButtonControl name_raises_backend [GetChildren, ClassName (Window 0)] (Window 0) 15 ''Accept.*''
     = Inr (Control 1) \<and>
   property_read_error name_raises_backend
       [GetChildren, ClassName (Window 0), ButtonControl (Window 0) 15 ''Accept.*''] (Control 1) ''Accept''
     = Some (Exception ''element gone'',
             [GetChildren, ClassName (Window 0), ButtonControl (Window 0) 15 ''Accept.*'',
              Exists (Control 1), Name (Control 1)]) \<and>
   for_windows name_raises_backend ''Accept.*'' ''Confirm.*'' 0 [Window 0, Window 3] [GetChildren]
     = (Inl (Exception ''element gone''),
        [GetChildren, ClassName (Window 0), ButtonControl (Window 0) 15 ''Accept.*'',
         Exists (Control 1), Name (Control 1)])"
proof -
  have a: "r_ClassName name_raises_backend [GetChildren] (Window 0) = Inr ''Chrome_WidgetWin_1''"
    by (simp add: name_raises_backend_def ok_backend_def)
  have b: "r_ButtonControl name_raises_backend ([GetChildren] @ [ClassName (Window 0)]) (Window 0) 15 ''Accept.*''
     = Inr (Control 1)"
    by (simp add: name_raises_backend_def ok_backend_def)
  have c: "property_read_error name_raises_backend
       ([GetChildren] @ [ClassName (Window 0), ButtonControl (Window 0) 15 ''Accept.*'']) (Control 1) ''Accept''
     = Some (Exception ''element gone'',
             [GetChildren, ClassName (Window 0), ButtonControl (Window 0) 15 ''Accept.*'',
              Exists (Control 1), Name (Control 1)])"
    by (simp add: property_read_error_def name_raises_backend_def ok_backend_def)
  note t = property_read_error_escapes_cascade [OF a b c, of 0 "''Confirm.*''" "[Window 3]" 0]
  show ?thesis using a b c t [THEN conjunct2, THEN conjunct1] by simp
qed

text \<open>
  C4.  A control that supports neither programmatic pattern and is activated by the physical
  click: \<open>click_button\<close> returns \<open>True\<close> and the last thing it does is write the log line.  No
  settle delay follows the click, unlike after a success of method 1 or method 2.
\<close>

theorem click_button_physical_click_no_settle:
  "click_button click_only_backend (Control 1) ''Accept'' 0 [] =
     (Inr True,
      [Exists (Control 1), Name (Control 1), Print ''Found Accept button: Accept'',
       IsEnabled (Control 1),
       Invoke (Control 1), Print ''Invoke failed: no InvokePattern'',
       GetLegacyIAccessiblePattern (Control 1),
       Click (Control 1), Print ''Fallback: Accept button physical click used (Mouse Moved)''])"
  by (simp add: click_button_def methods_run method1_run method2_run method3_run print_found_run
        found_line_def bnd_def call_def ret_def click_only_backend_def ok_backend_def)

subsection \<open>Accept, then Confirm\<close>

lemma click_button_extends:
  "\<exists>evs. snd (click_button be b bt d h) = h @ evs \<and> list_all (\<lambda>ev. \<not> is_search ev) evs"
  using click_button_emits [of b be bt d h] cascade_event_not_search [of b]
  by (auto simp add: emits_def list_all_iff)

text \<open>
  C6.  The Accept activation in a target window succeeded, \<open>h3\<close> being the history when
  \<open>click_button\<close> returned \<open>True\<close>.  The window loop then sleeps \<open>1/2\<close>, makes one search for
  the Confirm pattern in the same window, and makes no further window query of any kind: it
  does not go on to the remaining windows.  When the control found does not exist the loop
  ends normally after the existence check; when it exists, \<open>click_button\<close> is run on it.
\<close>

theorem accept_success_then_confirm:
  assumes "r_ClassName be h window = Inr ''Chrome_WidgetWin_1''"
      and "r_ButtonControl be (h @ [ClassName window]) window 15 ap = Inr accept_button"
      and "click_button be accept_button ''Accept'' d (h @ [ClassName window, ButtonControl window 15 ap])
             = (Inr True, h3)"
  shows "\<exists>evs. snd (for_windows be ap cp d (window # rest) h)
                 = h3 @ [Sleep (1/2), ButtonControl window 15 cp] @ evs \<and>
               list_all (\<lambda>ev. \<not> is_search ev) evs \<and>
               (\<forall>cb. r_ButtonControl be (h3 @ [Sleep (1/2)]) window 15 cp = Inr cb \<longrightarrow>
                  (r_Exists be (h3 @ [Sleep (1/2), ButtonControl window 15 cp]) cb = Inr False \<longrightarrow>
                     for_windows be ap cp d (window # rest) h
                       = (Inr (), h3 @ [Sleep (1/2), ButtonControl window 15 cp, Exists cb])) \<and>
                  (r_Exists be (h3 @ [Sleep (1/2), ButtonControl window 15 cp]) cb = Inr True \<longrightarrow>
                     snd (for_windows be ap cp d (window # rest) h)
                       = snd (click_button be cb ''Confirm'' d
                               (h3 @ [Sleep (1/2), ButtonControl window 15 cp, Exists cb]))))"
proof -
  define h4 where "h4 = h3 @ [Sleep (1/2), ButtonControl window 15 cp]"
  define follow :: "unit prog" where
    "follow = bnd (call (\<lambda>h. r_ButtonControl be h window 15 cp) (ButtonControl window 15 cp))
       (\<lambda>confirm_button.
         bnd (call (\<lambda>h. r_Exists be h confirm_button) (Exists confirm_button)) (\<lambda>ex.
         if ex
         then bnd (click_button be confirm_button ''Confirm'' d) (\<lambda>_. ret ())
         else ret ()))"
  have fw: "for_windows be ap cp d (window # rest) h = follow (h3 @ [Sleep (1/2)])"
    using assms by (simp add: bnd_def call_def sleep_def follow_def split: sum.splits)
  show ?thesis
  proof (cases "r_ButtonControl be (h3 @ [Sleep (1/2)]) window 15 cp")
    case (Inl e)
    then have "follow (h3 @ [Sleep (1/2)]) = (Inl e, h4)"
      by (simp add: follow_def bnd_def call_def h4_def)
    then show ?thesis using Inl fw
      by (intro exI [of _ "[]"]) (simp del: for_windows.simps add: h4_def)
  next
    case (Inr cb)
    show ?thesis
    proof (cases "r_Exists be h4 cb")
      case (Inl e)
      then have "follow (h3 @ [Sleep (1/2)]) = (Inl e, h4 @ [Exists cb])"
        using Inr by (simp add: follow_def bnd_def call_def h4_def)
      then show ?thesis using Inl Inr fw
        by (intro exI [of _ "[Exists cb]"]) (simp del: for_windows.simps add: h4_def)
    next
      case ex: (Inr x)
      show ?thesis
      proof (cases x)
        case False
        then have "follow (h3 @ [Sleep (1/2)]) = (Inr (), h4 @ [Exists cb])"
          using Inr ex by (simp add: follow_def bnd_def call_def ret_def h4_def)
        then show ?thesis using ex False Inr fw
          by (intro exI [of _ "[Exists cb]"]) (simp del: for_windows.simps add: h4_def)
      next
        case True
        obtain evs where evs: "snd (click_button be cb ''Confirm'' d (h4 @ [Exists cb])) = (h4 @ [Exists cb]) @ evs"
          "list_all (\<lambda>ev. \<not> is_search ev) evs"
          using click_button_extends by blast
        have "snd (follow (h3 @ [Sleep (1/2)])) = snd (click_button be cb ''Confirm'' d (h4 @ [Exists cb]))"
          using Inr ex True
          by (simp add: follow_def bnd_def call_def ret_def h4_def split: prod.splits sum.splits)
        then have "snd (for_windows be ap cp d (window # rest) h) = h4 @ Exists cb # evs"
                  "snd (for_windows be ap cp d (window # rest) h) =
                     snd (click_button be cb ''Confirm'' d (h4 @ [Exists cb]))"
          using fw evs by simp_all
        then show ?thesis using ex True Inr evs(2)
          by (intro exI [of _ "Exists cb # evs"]) (simp del: for_windows.simps add: h4_def)
      qed
    qed
  qed
qed

theorem accept_success_then_confirm_witness:
  "r_ClassName accept_only_backend [] (Window 0) = Inr ''Chrome_WidgetWin_1'' \<and>
   r_ButtonControl accept_only_backend [ClassName (Window 0)] (Window 0) 15 ''Accept.*'' = Inr (Control 1) \<and>
   click_button accept_only_backend (Control 1) ''Accept'' 0
       [ClassName (Window 0), ButtonControl (Window 0) 15 ''Accept.*'']
     = (Inr True,
        [ClassName (Window 0), ButtonControl (Window 0) 15 ''Accept.*'',
         Exists (Control 1), Name (Control 1), Print ''Found Accept button: Accept'',
         IsEnabled (Control 1), Invoke (Control 1),
         Print ''Success: Accept button invoked via UIA Pattern!'', Sleep (1/2)]) \<and>
   for_windows accept_only_backend ''Accept.*'' ''Confirm.*'' 0 [Window 0, Window 3] []
     = (Inr (),
        [ClassName (Window 0), ButtonControl (Window 0) 15 ''Accept.*'',
         Exists (Control 1), Name (Control 1), Print ''Found Accept button: Accept'',
         IsEnabled (Control 1), Invoke (Control 1),
         Print ''Success: Accept button invoked via UIA Pattern!'', Sleep (1/2),
         Sleep (1/2), ButtonControl (Window 0) 15 ''Confirm.*'', Exists (Control 2)])"
proof -
  define h3 where "h3 =
        [ClassName (Window 0), ButtonControl (Window 0) 15 ''Accept.*'',
         Exists (Control 1), Name (Control 1), Print ''Found Accept button: Accept'',
         IsEnabled (Control 1), Invoke (Control 1),
         Print ''Success: Accept button invoked via UIA Pattern!'', Sleep (1/2)]"
  have a: "r_ClassName accept_only_backend [] (Window 0) = Inr ''Chrome_WidgetWin_1''"
    by (simp add: accept_only_backend_def ok_backend_def)
  have b: "r_ButtonControl accept_only_backend ([] @ [ClassName (Window 0)]) (Window 0) 15 ''Accept.*''
             = Inr (Control 1)"
    by (simp add: accept_only_backend_def ok_backend_def)
  have c: "click_button accept_only_backend (Control 1) ''Accept'' 0
             ([] @ [ClassName (Window 0), ButtonControl (Window 0) 15 ''Accept.*'']) = (Inr True, h3)"
    by (simp add: click_button_def methods_run method1_run print_found_run found_line_def
          bnd_def call_def ret_def accept_only_backend_def ok_backend_def h3_def)
  have d: "r_ButtonControl accept_only_backend (h3 @ [Sleep (1/2)]) (Window 0) 15 ''Confirm.*''
             = Inr (Control 2)"
    by (simp add: accept_only_backend_def ok_backend_def)
  have e: "r_Exists accept_only_backend (h3 @ [Sleep (1/2), ButtonControl (Window 0) 15 ''Confirm.*''])
             (Control 2) = Inr False"
    by (simp add: accept_only_backend_def ok_backend_def)
  have "for_windows accept_only_backend ''Accept.*'' ''Confirm.*'' 0 [Window 0, Window 3] []
          = (Inr (), h3 @ [Sleep (1/2), ButtonControl (Window 0) 15 ''Confirm.*'', Exists (Control 2)])"
    using accept_success_then_confirm [OF a b c, of "''Confirm.*''" "[Window 3]"] d e by blast
  then show ?thesis using a b c by (simp del: for_windows.simps add: h3_def)
qed

lemma methods_snd_cases:
  "snd (methods be b bt h) = snd (method1 be b bt h) \<or>
   snd (methods be b bt h) = snd (method2 be b bt (snd (method1 be b bt h))) \<or>
   snd (methods be b bt h) =
     snd (method3 be b bt (snd (method2 be b bt (snd (method1 be b bt h)))))"
  by (simp add: methods_run split: prod.splits sum.splits option.splits)

lemma method1_one_invoke:
  "count_list (snd (method1 be b bt h)) (Invoke b) = count_list h (Invoke b) + 1"
  by (simp add: method1_run split: sum.splits)

lemma method2_no_invoke:
  "count_list (snd (method2 be b bt h)) (Invoke b) = count_list h (Invoke b)"
  by (simp add: method2_run split: sum.splits)

lemma method3_no_invoke:
  "count_list (snd (method3 be b bt h)) (Invoke b) = count_list h (Invoke b)"
  by (simp add: method3_run split: sum.splits)

lemma click_button_one_invoke:
  assumes "r_Exists be h button = Inr True"
      and "r_Name be (h @ [Exists button]) button = Inr name"
      and "r_IsEnabled be (h @ [Exists button, Name button, Print (found_line be button_type name)])
             button = Inr True"
  shows "count_list (snd (click_button be button button_type click_delay h)) (Invoke button)
           = count_list h (Invoke button) + 1"
proof -
  let ?h1 = "at_methods be h button button_type name click_delay"
  have "count_list (snd (methods be button button_type ?h1)) (Invoke button)
          = count_list ?h1 (Invoke button) + 1"
    using methods_snd_cases [of be button button_type ?h1]
    by (auto simp add: method1_one_invoke method2_no_invoke method3_no_invoke)
  also have "\<dots> = count_list h (Invoke button) + 1"
    by (simp add: at_methods_def)
  finally show ?thesis
    using click_button_enabled [OF assms, of click_delay] by simp
qed

text \<open>
  C7.  In a target window the Accept attempt returned \<open>False\<close> (no Accept control, a disabled
  one, or every strategy failed), \<open>h3\<close> being the history at that point.  The window loop
  then searches the same window for the Confirm pattern and runs \<open>click_button\<close> on the
  control found: the loop ends when that succeeds and goes on with the remaining windows
  when it does not.  When the Confirm control exists and is enabled, that run makes exactly
  one \<open>Invoke\<close> call on it.
\<close>

theorem no_accept_then_confirm:
  assumes "r_ClassName be h window = Inr ''Chrome_WidgetWin_1''"
      and "r_ButtonControl be (h @ [ClassName window]) window 15 ap = Inr accept_button"
      and "click_button be accept_button ''Accept'' d (h @ [ClassName window, ButtonControl window 15 ap])
             = (Inr False, h3)"
      and "r_ButtonControl be h3 window 15 cp = Inr cb"
  shows "(let run = click_button be cb ''Confirm'' d (h3 @ [ButtonControl window 15 cp]) in
            for_windows be ap cp d (window # rest) h =
              (case fst run of
                 Inl e \<Rightarrow> (Inl e, snd run)
               | Inr True \<Rightarrow> (Inr (), snd run)
               | Inr False \<Rightarrow> for_windows be ap cp d rest (snd run)) \<and>
            (\<forall>name. r_Exists be (h3 @ [ButtonControl window 15 cp]) cb = Inr True \<and>
                    r_Name be (h3 @ [ButtonControl window 15 cp, Exists cb]) cb = Inr name \<and>
                    r_IsEnabled be (h3 @ [ButtonControl window 15 cp, Exists cb, Name cb,
                                          Print (found_line be ''Confirm'' name)]) cb = Inr True \<longrightarrow>
                    count_list (snd run) (Invoke cb) = count_list h3 (Invoke cb) + 1))"
proof -
  define run where "run = click_button be cb ''Confirm'' d (h3 @ [ButtonControl window 15 cp])"
  have fw: "for_windows be ap cp d (window # rest) h =
              (case fst run of
                 Inl e \<Rightarrow> (Inl e, snd run)
               | Inr True \<Rightarrow> (Inr (), snd run)
               | Inr False \<Rightarrow> for_windows be ap cp d rest (snd run))"
    using assms
    by (cases run) (simp add: bnd_def call_def ret_def run_def [symmetric] split: sum.splits bool.splits)
  have cnt: "count_list (snd run) (Invoke cb) = count_list h3 (Invoke cb) + 1"
    if "r_Exists be (h3 @ [ButtonControl window 15 cp]) cb = Inr True"
       "r_Name be (h3 @ [ButtonControl window 15 cp, Exists cb]) cb = Inr name"
       "r_IsEnabled be (h3 @ [ButtonControl window 15 cp, Exists cb, Name cb,
                              Print (found_line be ''Confirm'' name)]) cb = Inr True" for name
    using click_button_one_invoke [of be "h3 @ [ButtonControl window 15 cp]" cb name "''Confirm''" d] that
    by (simp add: run_def)
  show ?thesis
    unfolding Let_def run_def [symmetric] using fw cnt by blast
qed

theorem no_accept_then_confirm_witness:
  "r_ClassName confirm_only_backend [] (Window 0) = Inr ''Chrome_WidgetWin_1'' \<and>
   r_ButtonControl confirm_only_backend [ClassName (Window 0)] (Window 0) 15 ''Accept.*'' = Inr (Control 1) \<and>
   click_button confirm_only_backend (Control 1) ''Accept'' 0
       [ClassName (Window 0), ButtonControl (Window 0) 15 ''Accept.*'']
     = (Inr False, [ClassName (Window 0), ButtonControl (Window 0) 15 ''Accept.*'', Exists (Control 1)]) \<and>
   r_ButtonControl confirm_only_backend
       [ClassName (Window 0), ButtonControl (Window 0) 15 ''Accept.*'', Exists (Control 1)]
       (Window 0) 15 ''Confirm.*'' = Inr (Control 2) \<and>
   for_windows confirm_only_backend ''Accept.*'' ''Confirm.*'' 0 [Window 0] []
     = (Inr (),
        [ClassName (Window 0), ButtonControl (Window 0) 15 ''Accept.*'', Exists (Control 1),
         ButtonControl (Window 0) 15 ''Confirm.*'',
         Exists (Control 2), Name (Control 2), Print ''Found Confirm button: Confirm Changes'',
         IsEnabled (Control 2), Invoke (Control 2),
         Print ''Success: Confirm button invoked via UIA Pattern!'', Sleep (1/2)]) \<and>
   count_list (snd (for_windows confirm_only_backend ''Accept.*'' ''Confirm.*'' 0 [Window 0] []))
       (Invoke (Control 2)) = 1"
proof -
  define h3 where
    "h3 = [ClassName (Window 0), ButtonControl (Window 0) 15 ''Accept.*'', Exists (Control 1)]"
  define h5 where
    "h5 = h3 @ [ButtonControl (Window 0) 15 ''Confirm.*'',
         Exists (Control 2), Name (Control 2), Print ''Found Confirm button: Confirm Changes'',
         IsEnabled (Control 2), Invoke (Control 2),
         Print ''Success: Confirm button invoked via UIA Pattern!'', Sleep (1/2)]"
  have a: "r_ClassName confirm_only_backend [] (Window 0) = Inr ''Chrome_WidgetWin_1''"
    by (simp add: confirm_only_backend_def ok_backend_def)
  have b: "r_ButtonControl confirm_only_backend ([] @ [ClassName (Window 0)]) (Window 0) 15 ''Accept.*''
             = Inr (Control 1)"
    by (simp add: confirm_only_backend_def ok_backend_def)
  have c: "click_button confirm_only_backend (Control 1) ''Accept'' 0
             ([] @ [ClassName (Window 0), ButtonControl (Window 0) 15 ''Accept.*'']) = (Inr False, h3)"
    by (simp add: click_button_def bnd_def call_def ret_def confirm_only_backend_def ok_backend_def h3_def)
  have d: "r_ButtonControl confirm_only_backend h3 (Window 0) 15 ''Confirm.*'' = Inr (Control 2)"
    by (simp add: confirm_only_backend_def ok_backend_def)
  have r: "click_button confirm_only_backend (Control 2) ''Confirm'' 0
             (h3 @ [ButtonControl (Window 0) 15 ''Confirm.*'']) = (Inr True, h5)"
    by (simp add: click_button_def methods_run method1_run print_found_run found_line_def
          bnd_def call_def ret_def confirm_only_backend_def ok_backend_def h5_def)
  have f: "for_windows confirm_only_backend ''Accept.*'' ''Confirm.*'' 0 [Window 0] [] = (Inr (), h5)"
    using no_accept_then_confirm [OF a b c d, of "[]"] r by (simp add: Let_def del: for_windows.simps)
  have g: "count_list h5 (Invoke (Control 2)) = 1"
    by (simp add: h5_def h3_def)
  show ?thesis
    using a b c d f g by (simp del: for_windows.simps add: h3_def h5_def)
qed

subsection \<open>Checks and time gaps\<close>

lemma verified_append:
  "verified_before_action s (xs @ ys) \<longleftrightarrow>
     verified_before_action s xs \<and> verified_before_action (foldl check_step s xs) ys"
  by (induction xs arbitrary: s) auto

lemma method1_verified:
  "\<exists>evs. snd (method1 be b bt h) = h @ Invoke b # evs \<and>
         verified_before_action (Some b, Some b) (Invoke b # evs) \<and>
         (fst (method1 be b bt h) = Inr None \<longrightarrow>
            foldl check_step (Some b, Some b) (Invoke b # evs) = (Some b, Some b))"
  by (simp add: method1_run split: sum.splits)

lemma method2_verified:
  "\<exists>evs. snd (method2 be b bt h) = h @ evs \<and>
         verified_before_action (Some b, Some b) evs \<and>
         (fst (method2 be b bt h) = Inr None \<longrightarrow>
            foldl check_step (Some b, Some b) evs = (Some b, Some b))"
  by (simp add: method2_run split: sum.splits)

lemma method3_verified:
  "\<exists>evs. snd (method3 be b bt h) = h @ evs \<and>
         verified_before_action (Some b, Some b) evs"
  by (simp add: method3_run split: sum.splits)

lemma methods_verified:
  "\<exists>evs. snd (methods be b bt h) = h @ Invoke b # evs \<and>
         verified_before_action (Some b, Some b) (Invoke b # evs)"
proof -
  obtain r1 h1 where m1: "method1 be b bt h = (r1, h1)" by (cases "method1 be b bt h")
  obtain e1 where e1: "h1 = h @ Invoke b # e1"
      "verified_before_action (Some b, Some b) (Invoke b # e1)"
      "r1 = Inr None \<longrightarrow> foldl check_step (Some b, Some b) (Invoke b # e1) = (Some b, Some b)"
    using method1_verified [of be b bt h] m1 by auto
  show ?thesis
  proof (cases "r1 = Inr None")
    case False
    then have "snd (methods be b bt h) = h1"
      using m1 by (simp add: methods_run split: sum.splits option.splits)
    then show ?thesis using e1 by blast
  next
    case True
    obtain r2 h2 where m2: "method2 be b bt h1 = (r2, h2)" by (cases "method2 be b bt h1")
    obtain e2 where e2: "h2 = h1 @ e2"
        "verified_before_action (Some b, Some b) e2"
        "r2 = Inr None \<longrightarrow> foldl check_step (Some b, Some b) e2 = (Some b, Some b)"
      using method2_verified [of be b bt h1] m2 by auto
    show ?thesis
    proof (cases "r2 = Inr None")
      case False
      then have "snd (methods be b bt h) = h2"
        using m1 m2 True by (simp add: methods_run split: sum.splits option.splits)
      moreover have "verified_before_action (Some b, Some b) ((Invoke b # e1) @ e2)"
        using e1 e2 True by (simp only: verified_append) (simp?)
      ultimately show ?thesis using e1(1) e2(1) by (intro exI [of _ "e1 @ e2"]) simp
    next
      case r2: True
      obtain r3 h3 where m3: "method3 be b bt h2 = (r3, h3)" by (cases "method3 be b bt h2")
      obtain e3 where e3: "h3 = h2 @ e3" "verified_before_action (Some b, Some b) e3"
        using method3_verified [of be b bt h2] m3 by auto
      have "snd (methods be b bt h) = h3"
        using m1 m2 m3 True r2 by (simp add: methods_run split: sum.splits option.splits)
      moreover have "foldl check_step (Some b, Some b) ((Invoke b # e1) @ e2) = (Some b, Some b)"
        using e1(3) e2(3) True r2 by (simp only: foldl_append) (simp?)
      then have "verified_before_action (Some b, Some b) (((Invoke b # e1) @ e2) @ e3)"
        using e1 e2 e3 True by (simp only: verified_append) (simp?)
      ultimately show ?thesis using e1(1) e2(1) e3(1) by (intro exI [of _ "e1 @ e2 @ e3"]) simp
    qed
  qed
qed

text \<open>
  C3 (as amended).  \<open>click_button\<close> verifies existence and the enabled flag at its entry,
  before any activation call: whenever it makes an activation call, the existence check has
  answered \<open>True\<close> and the enabled check has answered \<open>True\<close>, and what it did before the
  first activation call is the existence check, the name read, the log line, the enabled
  check and, for a positive \<open>click_delay\<close> only, the sleep of \<open>click_delay\<close>, after which
  \<open>Invoke\<close> follows directly.  With \<open>click_delay \<le> 0\<close> no time gap separates the checks from
  any activation call.
\<close>

theorem click_button_checks_then_delay:
  "\<exists>evs. snd (click_button be b bt d h) = h @ evs \<and>
         (strategy_calls evs \<noteq> [] \<longrightarrow>
            (\<exists>name evs'.
                r_Exists be h b = Inr True \<and>
                r_Name be (h @ [Exists b]) b = Inr name \<and>
                r_IsEnabled be (h @ [Exists b, Name b, Print (found_line be bt name)]) b = Inr True \<and>
                evs = [Exists b, Name b, Print (found_line be bt name), IsEnabled b]
                        @ (if 0 < d then [Sleep d] else []) @ Invoke b # evs')) \<and>
         (d \<le> 0 \<longrightarrow> verified_before_action (None, None) evs)"
proof (cases "r_Exists be h b = Inr True")
  case False
  then have "snd (click_button be b bt d h) = h @ [Exists b]"
    by (auto simp add: click_button_def bnd_def call_def ret_def split: sum.splits)
  then show ?thesis
    by (intro exI [of _ "[Exists b]"]) (simp add: strategy_calls_def)
next
  case ex: True
  show ?thesis
  proof (cases "r_Name be (h @ [Exists b]) b")
    case (Inl e)
    then have "snd (click_button be b bt d h) = h @ [Exists b, Name b]"
      using ex by (simp add: click_button_def bnd_def call_def)
    then show ?thesis
      by (intro exI [of _ "[Exists b, Name b]"]) (simp add: strategy_calls_def)
  next
    case (Inr name)
    let ?pre = "[Exists b, Name b, Print (found_line be bt name), IsEnabled b]"
    show ?thesis
    proof (cases "r_IsEnabled be (h @ [Exists b, Name b, Print (found_line be bt name)]) b = Inr True")
      case False
      then have "snd (click_button be b bt d h) = h @ ?pre"
        using ex Inr
        by (auto simp add: click_button_def print_found_run bnd_def call_def ret_def split: sum.splits)
      then show ?thesis
        by (intro exI [of _ ?pre]) (simp add: strategy_calls_def)
    next
      case True
      let ?gap = "if 0 < d then [Sleep d] else []"
      have "click_button be b bt d h = methods be b bt (h @ ?pre @ ?gap)"
        using click_button_enabled [OF ex Inr True, of d] by (simp add: at_methods_def)
      moreover obtain mevs where mevs:
          "snd (methods be b bt (h @ ?pre @ ?gap)) = (h @ ?pre @ ?gap) @ Invoke b # mevs"
          "verified_before_action (Some b, Some b) (Invoke b # mevs)"
        using methods_verified by blast
      ultimately have run: "snd (click_button be b bt d h) = h @ (?pre @ ?gap @ Invoke b # mevs)"
        by simp
      have "verified_before_action (None, None) (?pre @ ?gap @ Invoke b # mevs)" if "d \<le> 0"
        using that mevs(2) by simp
      then show ?thesis using run ex Inr True
        by (intro exI [of _ "?pre @ ?gap @ Invoke b # mevs"]) auto
    qed
  qed
qed

text \<open>
  The claim as the specification words it asks for a fresh check after the pre-click delay.
  With a delay of one second the sleep is directly followed by \<open>Invoke\<close>.
\<close>

theorem reverification_after_delay_counterexample:
  "snd (click_button ok_backend (Control 1) ''Accept'' 1 []) =
     [Exists (Control 1), Name (Control 1), Print ''Found Accept button: Accept'',
      IsEnabled (Control 1), Sleep 1, Invoke (Control 1),
      Print ''Success: Accept button invoked via UIA Pattern!'', Sleep (1/2)] \<and>
   \<not> verified_before_action (None, None) (snd (click_button ok_backend (Control 1) ''Accept'' 1 []))"
  by (simp add: click_button_def methods_run method1_run print_found_run found_line_def
        bnd_def call_def ret_def sleep_def ok_backend_def)

theorem click_button_checks_then_delay_witness:
  "strategy_calls (snd (click_button ok_backend (Control 1) ''Accept'' 0 [])) \<noteq> [] \<and>
   (0::rat) \<le> 0 \<and>
   r_Exists ok_backend [] (Control 1) = Inr True \<and>
   r_IsEnabled ok_backend [Exists (Control 1), Name (Control 1), Print ''Found Accept button: Accept'']
     (Control 1) = Inr True \<and>
   (\<exists>evs'. snd (click_button ok_backend (Control 1) ''Accept'' 0 []) =
      [Exists (Control 1), Name (Control 1), Print ''Found Accept button: Accept'',
       IsEnabled (Control 1), Invoke (Control 1)] @ evs') \<and>
   verified_before_action (None, None) (snd (click_button ok_backend (Control 1) ''Accept'' 0 []))"
proof -
  have run: "snd (click_button ok_backend (Control 1) ''Accept'' 0 []) =
     [Exists (Control 1), Name (Control 1), Print ''Found Accept button: Accept'',
      IsEnabled (Control 1), Invoke (Control 1),
      Print ''Success: Accept button invoked via UIA Pattern!'', Sleep (1/2)]"
    by (simp add: click_button_def methods_run method1_run print_found_run found_line_def
        bnd_def call_def ret_def sleep_def ok_backend_def)
  obtain evs where evs: "snd (click_button ok_backend (Control 1) ''Accept'' 0 []) = [] @ evs"
      "(0::rat) \<le> 0 \<longrightarrow> verified_before_action (None, None) evs"
    using click_button_checks_then_delay [of ok_backend "Control 1" "''Accept''" 0 "[]"] by blast
  then have "verified_before_action (None, None) (snd (click_button ok_backend (Control 1) ''Accept'' 0 []))"
    by simp
  then show ?thesis using run by (simp add: strategy_calls_def ok_backend_def)
qed

end
